theory Spec2Isabelle
  imports Main "HOL-Library.Word"
begin

unbundle bit_operations_syntax

section \<open>The facade of the regexp2 package (regexp.go)\<close>

text \<open>
  The file regexp.go is the public surface of the package: it converts strings to
  rune slices, hands them to the engine (\<open>re.run\<close>), iterates matches and maps group
  names to numbers.  Go values are modelled as follows: \<open>int\<close> is a HOL \<open>int\<close> (the
  64-bit wrap-around is written out where a loop can overflow), a \<open>string\<close> is its
  byte sequence (a HOL \<open>string\<close>, one \<open>char\<close> per byte), a \<open>rune\<close> is an \<open>int\<close>, a
  nil-able pointer, slice or map is an \<open>option\<close>, and a pair \<open>(value, error)\<close> is a
  sum with the error on the left.
\<close>

subsection \<open>Data\<close>

type_synonym rune = int

datatype error = errors_New string

text \<open>
  \<open>Capture\<close>, \<open>Group\<close> and \<open>Match\<close> are declared in match.go, which is not among the
  files modelled here.  regexp.go reads the fields \<open>Index\<close> and \<open>Length\<close> (of the embedded
  group 0), \<open>text\<close> and \<open>textpos\<close>, and calls \<open>Groups()\<close>.  The record below has
  these fields; \<open>mtext\<close> stands for the Go field \<open>text\<close>.
\<close>

record Capture =
  Index :: int
  Length :: int

record Match = Capture +
  mtext :: "rune list"
  textpos :: int
  otherGroups :: "Capture list"

text \<open>
  Modelled from the spec: \<open>Match.Groups()\<close> (match.go) is missing.  The match result
  holds one span per group slot and slot 0 is the whole match, so the group list is
  the embedded group 0 followed by the other groups.
\<close>

definition Groups :: "Match \<Rightarrow> Capture list" where
  "Groups m = Capture.truncate m # otherGroups m"

text \<open>
  The read-only fields of \<open>Regexp\<close> that regexp.go consults.  The compiled program,
  the timeout and the runner cache are only used by the engine, which is passed to
  every function below as the parameter \<open>run\<close>.
\<close>

record Regexp =
  pattern :: string
  options :: "32 word"
  caps :: "(int \<rightharpoonup> int) option"
  capnames :: "(string \<rightharpoonup> int) option"
  capslist :: "string list option"
  capsize :: int

type_synonym engine = "Regexp \<Rightarrow> bool \<Rightarrow> int \<Rightarrow> rune list \<Rightarrow> error + Match option"

definition RightToLeft_opt :: "32 word" where
  "RightToLeft_opt = 0x0040"

definition RightToLeft :: "Regexp \<Rightarrow> bool" where
  "RightToLeft re \<longleftrightarrow> options re AND RightToLeft_opt \<noteq> 0"

definition len :: "'a list \<Rightarrow> int" where
  "len xs = int (length xs)"

subsection \<open>Strings as rune slices\<close>

text \<open>
  \<open>utf8.DecodeRuneInString\<close> of Go's standard library: the first rune of a byte
  string and its width in bytes.  An empty string gives \<open>(RuneError, 0)\<close>; a byte
  that does not start a well-formed encoding gives \<open>(RuneError, 1)\<close>.  The second
  byte of a sequence has to lie in the accept range of the first byte, the later
  ones between 0x80 and 0xBF.
\<close>

definition RuneError :: rune where
  "RuneError = 0xFFFD"

definition DecodeRuneInString :: "string \<Rightarrow> rune \<times> nat" where
  "DecodeRuneInString s =
     (case map of_char s :: nat list of
        [] \<Rightarrow> (RuneError, 0)
      | s0 # rest \<Rightarrow>
          if s0 < 0x80 then (int s0, 1)
          else if s0 < 0xC2 \<or> 0xF4 < s0 then (RuneError, 1)
          else
            let sz = (if s0 < 0xE0 then 2 else if s0 < 0xF0 then 3 else (4::nat));
                lo = (if s0 = 0xE0 then 0xA0 else if s0 = 0xF0 then 0x90 else 0x80);
                hi = (if s0 = 0xED then 0x9F else if s0 = 0xF4 then 0x8F else 0xBF)
            in
              if length s < sz then (RuneError, 1)
              else if rest ! 0 < lo \<or> hi < rest ! 0 then (RuneError, 1)
              else if sz \<le> 2 then (int (s0 mod 32 * 64 + rest ! 0 mod 64), 2)
              else if rest ! 1 < 0x80 \<or> 0xBF < rest ! 1 then (RuneError, 1)
              else if sz \<le> 3 then
                (int (s0 mod 16 * 4096 + rest ! 0 mod 64 * 64 + rest ! 1 mod 64), 3)
              else if rest ! 2 < 0x80 \<or> 0xBF < rest ! 2 then (RuneError, 1)
              else
                (int (s0 mod 8 * 262144 + rest ! 0 mod 64 * 4096 + rest ! 1 mod 64 * 64
                      + rest ! 2 mod 64), 4))"

lemma DecodeRuneInString_width_pos: "s \<noteq> [] \<Longrightarrow> 1 \<le> snd (DecodeRuneInString s)"
  by (cases s) (simp_all add: DecodeRuneInString_def Let_def)

lemma DecodeRuneInString_width_le: "snd (DecodeRuneInString s) \<le> length s"
  by (cases s) (auto simp: DecodeRuneInString_def Let_def Suc_le_eq not_less)

text \<open>
  \<open>for strIdx, r := range s\<close>: the pairs of byte offset and rune that the loop
  visits, the first offset being \<open>i\<close>.  Each step decodes one rune and moves on by
  its width.
\<close>

function range_string :: "nat \<Rightarrow> string \<Rightarrow> (int \<times> rune) list" where
  "range_string i [] = []"
| "range_string i (c # cs) =
     (int i, fst (DecodeRuneInString (c # cs)))
       # range_string (i + snd (DecodeRuneInString (c # cs)))
           (drop (snd (DecodeRuneInString (c # cs))) (c # cs))"
  by pat_completeness auto
termination
proof (relation "measure (\<lambda>(i, s). length s)")
  show "wf (measure (\<lambda>(i, s). length s))" by simp
next
  fix i :: nat and c :: char and cs :: string
  have "1 \<le> snd (DecodeRuneInString (c # cs))"
    using DecodeRuneInString_width_pos [of "c # cs"] by simp
  then show "((i + snd (DecodeRuneInString (c # cs)),
               drop (snd (DecodeRuneInString (c # cs))) (c # cs)), (i, c # cs))
             \<in> measure (\<lambda>(i, s). length s)"
    by simp
qed

text \<open>
  \<open>getRunes\<close> writes the runes of the range loop into a buffer of \<open>len(s)\<close> cells,
  one after the other, and returns the part it has filled.  A rune takes at least
  one byte, so the buffer is never too short.
\<close>

definition getRunes :: "string \<Rightarrow> rune list" where
  "getRunes s = map snd (range_string 0 s)"

text \<open>
  The loop of \<open>getRunesAndStart\<close>, with the rune counter \<open>i\<close> and the variable
  \<open>runeIdx\<close>; the result is the final \<open>runeIdx\<close>.
\<close>

fun start_loop :: "int \<Rightarrow> (int \<times> rune) list \<Rightarrow> int \<Rightarrow> int \<Rightarrow> int" where
  "start_loop startAt [] i runeIdx = runeIdx"
| "start_loop startAt ((strIdx, r) # rest) i runeIdx =
     start_loop startAt rest (i + 1) (if strIdx = startAt then i else runeIdx)"

definition getRunesAndStart :: "Regexp \<Rightarrow> string \<Rightarrow> int \<Rightarrow> rune list \<times> int" where
  "getRunesAndStart re s startAt =
     (if startAt < 0 then
        if RightToLeft re then (getRunes s, len (getRunes s)) else (getRunes s, 0)
      else (map snd (range_string 0 s), start_loop startAt (range_string 0 s) 0 (- 1)))"

subsection \<open>Finding one match\<close>

definition FindStringMatch :: "engine \<Rightarrow> Regexp \<Rightarrow> string \<Rightarrow> error + Match option" where
  "FindStringMatch run re s = run re False (- 1) (getRunes s)"

definition FindStringMatchStartingAt ::
  "engine \<Rightarrow> Regexp \<Rightarrow> string \<Rightarrow> int \<Rightarrow> error + Match option" where
  "FindStringMatchStartingAt run re s startAt =
     (if startAt > len s then
        Inl (errors_New ''startAt must be less than the length of the input string'')
      else
        case getRunesAndStart re s startAt of
          (r, startAt') \<Rightarrow>
            if startAt' = - 1 then
              Inl (errors_New
                ''startAt must align to the start of a valid rune in the input string'')
            else run re False startAt' r)"

definition MatchString :: "engine \<Rightarrow> Regexp \<Rightarrow> string \<Rightarrow> error + bool" where
  "MatchString run re s =
     (case run re True (- 1) (getRunes s) of
        Inl err \<Rightarrow> Inl err
      | Inr m \<Rightarrow> Inr (m \<noteq> None))"

definition MatchRunes :: "engine \<Rightarrow> Regexp \<Rightarrow> rune list \<Rightarrow> error + bool" where
  "MatchRunes run re r =
     (case run re True (- 1) r of
        Inl err \<Rightarrow> Inl err
      | Inr m \<Rightarrow> Inr (m \<noteq> None))"

text \<open>
  The byte offsets at which the range loop starts a rune: the positions of \<open>s\<close>
  that are aligned with the start of a scalar.
\<close>

definition rune_offsets :: "string \<Rightarrow> int list" where
  "rune_offsets s = map fst (range_string 0 s)"

subsection \<open>Finding the next match\<close>

definition FindRunesMatch :: "engine \<Rightarrow> Regexp \<Rightarrow> rune list \<Rightarrow> error + Match option" where
  "FindRunesMatch run re r = run re False (- 1) r"

definition FindRunesMatchStartingAt ::
  "engine \<Rightarrow> Regexp \<Rightarrow> rune list \<Rightarrow> int \<Rightarrow> error + Match option" where
  "FindRunesMatchStartingAt run re r startAt = run re False startAt r"

definition FindNextMatch :: "engine \<Rightarrow> Regexp \<Rightarrow> Match option \<Rightarrow> error + Match option" where
  "FindNextMatch run re mo =
     (case mo of
        None \<Rightarrow> Inr None
      | Some m \<Rightarrow>
          if Length m = 0 then
            if textpos m = len (mtext m) then Inr None
            else if RightToLeft re then run re False (textpos m - 1) (mtext m)
            else run re False (textpos m + 1) (mtext m)
          else run re False (textpos m) (mtext m))"

subsection \<open>Group names and numbers\<close>

text \<open>
  Go's \<open>int\<close> has 64 bits on the platforms the package targets; \<open>wrap64\<close> is the value
  a two's complement 64-bit register holds after an operation whose exact result
  is the argument.
\<close>

definition wrap64 :: "int \<Rightarrow> int" where
  "wrap64 x = (x + 2 ^ 63) mod 2 ^ 64 - 2 ^ 63"

text \<open>
  The digit loop of \<open>GroupNumberFromName\<close>; \<open>None\<close> is the \<open>return -1\<close> inside the
  loop, \<open>Some result\<close> the value of \<open>result\<close> when the loop ends.
\<close>

fun digits_loop :: "int \<Rightarrow> string \<Rightarrow> int option" where
  "digits_loop result [] = Some result"
| "digits_loop result (ch # rest) =
     (if (of_char ch :: nat) > 57 \<or> (of_char ch :: nat) < 48 then None
      else digits_loop (wrap64 (wrap64 (result * 10) + int (of_char ch - 48))) rest)"

definition GroupNumberFromName :: "Regexp \<Rightarrow> string \<Rightarrow> int" where
  "GroupNumberFromName re name =
     (case capnames re of
        Some names \<Rightarrow> (case names name of Some k \<Rightarrow> k | None \<Rightarrow> - 1)
      | None \<Rightarrow>
          (case digits_loop 0 name of
             None \<Rightarrow> - 1
           | Some result \<Rightarrow> if result \<ge> 0 \<and> result < capsize re then result else - 1))"

text \<open>
  \<open>strconv.Itoa\<close> of Go's standard library: the decimal representation of an
  integer, without leading zeros and with a minus sign for a negative number.
\<close>

definition digit_char :: "nat \<Rightarrow> char" where
  "digit_char d = char_of (48 + d)"

function Itoa_nat :: "nat \<Rightarrow> string" where
  "Itoa_nat n = (if n < 10 then [digit_char n] else Itoa_nat (n div 10) @ [digit_char (n mod 10)])"
  by pat_completeness auto
termination
  by (relation "measure id") auto

declare Itoa_nat.simps [simp del]

definition Itoa :: "int \<Rightarrow> string" where
  "Itoa i = (if i < 0 then CHR ''-'' # Itoa_nat (nat (- i)) else Itoa_nat (nat i))"

definition GetGroupNames :: "Regexp \<Rightarrow> string list" where
  "GetGroupNames re =
     (case capslist re of
        None \<Rightarrow> map (\<lambda>i. Itoa (int i)) [0 ..< nat (capsize re)]
      | Some names \<Rightarrow> names)"

definition GroupNameFromNumber :: "Regexp \<Rightarrow> int \<Rightarrow> string" where
  "GroupNameFromNumber re i =
     (case capslist re of
        None \<Rightarrow> if i \<ge> 0 \<and> i < capsize re then Itoa i else []
      | Some names \<Rightarrow>
          (case (case caps re of None \<Rightarrow> Some i | Some m \<Rightarrow> m i) of
             None \<Rightarrow> []
           | Some j \<Rightarrow> if j \<ge> 0 \<and> j < len names then names ! nat j else []))"

subsection \<open>Finding all matches\<close>

text \<open>
  \<open>m, _ := f(...)\<close>: the error is dropped; a call that fails leaves \<open>m\<close> nil.
\<close>

definition drop_error :: "error + Match option \<Rightarrow> Match option" where
  "drop_error res = (case res of Inl err \<Rightarrow> None | Inr m \<Rightarrow> m)"

definition span :: "Capture \<Rightarrow> int list" where
  "span g = [Index g, Index g + Length g]"

function FindAllStringIndex_loop ::
  "engine \<Rightarrow> Regexp \<Rightarrow> int \<Rightarrow> int \<Rightarrow> Match option \<Rightarrow> int list list \<Rightarrow> int list list" where
  "FindAllStringIndex_loop run re n c None result = result"
| "FindAllStringIndex_loop run re n c (Some m) result =
     (if c < n then
        FindAllStringIndex_loop run re n (c + 1) (drop_error (FindNextMatch run re (Some m)))
          (if len (Groups m) > 0 then result @ [span (Groups m ! 0)] else result)
      else result)"
  by pat_completeness auto
termination
  by (relation "measure (\<lambda>(run, re, n, c, m, result). nat (n - c))") auto

definition FindAllStringIndex :: "engine \<Rightarrow> Regexp \<Rightarrow> string \<Rightarrow> int \<Rightarrow> int list list" where
  "FindAllStringIndex run re s n =
     FindAllStringIndex_loop run re (if n < 0 then len s + 1 else n) 0
       (drop_error (FindStringMatch run re s)) []"

definition FindStringIndex :: "engine \<Rightarrow> Regexp \<Rightarrow> string \<Rightarrow> int list option" where
  "FindStringIndex run re s =
     (case drop_error (FindStringMatch run re s) of
        None \<Rightarrow> None
      | Some m \<Rightarrow> if len (Groups m) > 0 then Some (span (Groups m ! 0)) else None)"

definition FindStringSubmatchIndex :: "engine \<Rightarrow> Regexp \<Rightarrow> string \<Rightarrow> int list" where
  "FindStringSubmatchIndex run re s =
     (case drop_error (FindStringMatch run re s) of
        None \<Rightarrow> []
      | Some m \<Rightarrow> concat (map span (Groups m)))"

function FindAllStringSubmatchIndex_loop ::
  "engine \<Rightarrow> Regexp \<Rightarrow> int \<Rightarrow> int \<Rightarrow> Match option \<Rightarrow> int list list \<Rightarrow> int list list" where
  "FindAllStringSubmatchIndex_loop run re n c None result = result"
| "FindAllStringSubmatchIndex_loop run re n c (Some m) result =
     (if c < n then
        FindAllStringSubmatchIndex_loop run re n (c + 1)
          (drop_error (FindNextMatch run re (Some m)))
          (result @ [concat (map span (Groups m))])
      else result)"
  by pat_completeness auto
termination
  by (relation "measure (\<lambda>(run, re, n, c, m, result). nat (n - c))") auto

definition FindAllStringSubmatchIndex ::
  "engine \<Rightarrow> Regexp \<Rightarrow> string \<Rightarrow> int \<Rightarrow> int list list" where
  "FindAllStringSubmatchIndex run re s n =
     FindAllStringSubmatchIndex_loop run re (if n < 0 then len s + 1 else n) 0
       (drop_error (FindStringMatch run re s)) []"

subsection \<open>Replacing with a callback\<close>

text \<open>
  A slice expression \<open>s[lo:hi]\<close> panics unless \<open>0 \<le> lo \<le> hi \<le> len(s)\<close>.
\<close>

datatype panic = slice_bounds_out_of_range

definition slice :: "string \<Rightarrow> int \<Rightarrow> int \<Rightarrow> panic + string" where
  "slice s lo hi =
     (if 0 \<le> lo \<and> lo \<le> hi \<and> hi \<le> len s then Inr (take (nat (hi - lo)) (drop (nat lo) s))
      else Inl slice_bounds_out_of_range)"

type_synonym repl = "string \<Rightarrow> int list \<Rightarrow> panic + string"

record replaceAll_state =
  lastMatchEnd :: int
  searchPos :: int
  buf :: string

text \<open>
  One pass through the body of the loop of \<open>replaceAll\<close>, up to the call of
  \<open>FindNextMatch\<close>: the unmatched bytes before the match are copied, the callback
  is applied unless the guard skips it, and \<open>searchPos\<close> is moved.
\<close>

definition replaceAll_body ::
  "string \<Rightarrow> repl \<Rightarrow> replaceAll_state \<Rightarrow> Match \<Rightarrow> panic + replaceAll_state" where
  "replaceAll_body src rp st m =
     (let a0 = Index m; a1 = Index m + Length m in
      case slice src (lastMatchEnd st) a0 of
        Inl p \<Rightarrow> Inl p
      | Inr unmatched \<Rightarrow>
          (case (if a1 > lastMatchEnd st \<or> a0 = 0 then rp (buf st @ unmatched) [a0, a1]
                 else Inr (buf st @ unmatched)) of
             Inl p \<Rightarrow> Inl p
           | Inr buf' \<Rightarrow>
               (case slice src (searchPos st) (len src) of
                  Inl p \<Rightarrow> Inl p
                | Inr rest \<Rightarrow>
                    let width = int (snd (DecodeRuneInString rest)) in
                    Inr \<lparr>lastMatchEnd = a1,
                         searchPos =
                           (if searchPos st + width > a1 then searchPos st + width
                            else if searchPos st + 1 > a1 then searchPos st + 1
                            else a1),
                         buf = buf'\<rparr>)))"

text \<open>
  The loop runs as long as the engine finds a next match, so it need not end;
  \<open>None\<close> is the run that never returns, \<open>Some (Inl p)\<close> a run that panics.
\<close>

partial_function (option) replaceAll_loop ::
  "engine \<Rightarrow> Regexp \<Rightarrow> string \<Rightarrow> repl \<Rightarrow> replaceAll_state \<Rightarrow> Match option
     \<Rightarrow> (panic + string) option" where
  "replaceAll_loop run re src rp st mo =
     (case mo of
        None \<Rightarrow>
          (case slice src (lastMatchEnd st) (len src) of
             Inl p \<Rightarrow> Some (Inl p)
           | Inr rest \<Rightarrow> Some (Inr (buf st @ rest)))
      | Some m \<Rightarrow>
          (case replaceAll_body src rp st m of
             Inl p \<Rightarrow> Some (Inl p)
           | Inr st' \<Rightarrow>
               replaceAll_loop run re src rp st' (drop_error (FindNextMatch run re (Some m)))))"

declare replaceAll_loop.simps [code]

definition replaceAll :: "engine \<Rightarrow> Regexp \<Rightarrow> string \<Rightarrow> repl \<Rightarrow> (panic + string) option" where
  "replaceAll run re src rp =
     replaceAll_loop run re src rp \<lparr>lastMatchEnd = 0, searchPos = 0, buf = []\<rparr>
       (drop_error (FindStringMatch run re src))"

definition ReplaceAllFunc ::
  "engine \<Rightarrow> Regexp \<Rightarrow> string \<Rightarrow> (string \<Rightarrow> string) \<Rightarrow> (panic + string) option" where
  "ReplaceAllFunc run re src f =
     replaceAll run re src
       (\<lambda>dst match.
          case slice src (match ! 0) (match ! 1) of
            Inl p \<Rightarrow> Inl p
          | Inr piece \<Rightarrow> Inr (dst @ f piece))"

subsection \<open>Quoting metacharacters\<close>

text \<open>
  \<open>var specialBytes [16]byte\<close>: the declaration has no initialiser and the file
  has no statement that assigns to the array, so every cell holds the zero value.
\<close>

definition specialBytes :: "8 word list" where
  "specialBytes = replicate 16 0"

definition special :: "char \<Rightarrow> bool" where
  "special b \<longleftrightarrow>
     (of_char b :: nat) < 0x80
     \<and> (specialBytes ! (of_char b mod 16)) AND push_bit (of_char b div 16 :: nat) 1 \<noteq> 0"

text \<open>
  The first loop of \<open>QuoteMeta\<close>: the index of the first special byte, or the
  length of the string when there is none.
\<close>

fun first_special :: "string \<Rightarrow> nat" where
  "first_special [] = 0"
| "first_special (c # cs) = (if special c then 0 else Suc (first_special cs))"

text \<open>
  The second loop: every byte is copied, a special byte after a backslash.
\<close>

fun escape_loop :: "string \<Rightarrow> string" where
  "escape_loop [] = []"
| "escape_loop (c # cs) =
     (if special c then CHR 0x5C # c # escape_loop cs else c # escape_loop cs)"

definition QuoteMeta :: "string \<Rightarrow> string" where
  "QuoteMeta s =
     (let i = first_special s in
      if i \<ge> length s then s else take i s @ escape_loop (drop i s))"

subsection \<open>Example values\<close>

text \<open>
  An engine that reports how it was called: a zero-width match at the start
  position it was given.  A left-to-right and a right-to-left pattern without
  named groups.
\<close>

definition echo_engine :: engine where
  "echo_engine re quick startAt r =
     Inr (Some \<lparr>Index = startAt, Length = 0, mtext = r, textpos = startAt, otherGroups = []\<rparr>)"

definition re_ltr :: Regexp where
  "re_ltr = \<lparr>pattern = [], options = 0, caps = None, capnames = None, capslist = None,
     capsize = 1\<rparr>"

definition re_rtl :: Regexp where
  "re_rtl = \<lparr>pattern = [], options = RightToLeft_opt, caps = None, capnames = None,
     capslist = None, capsize = 1\<rparr>"

text \<open>
  Decimal digits and the number an all-digits name denotes, for stating what
  \<open>GroupNumberFromName\<close> computes.  A pattern with two unnamed groups.
\<close>

definition is_digit :: "char \<Rightarrow> bool" where
  "is_digit c \<longleftrightarrow> (48::nat) \<le> of_char c \<and> (of_char c :: nat) \<le> 57"

definition decimal_value :: "string \<Rightarrow> nat" where
  "decimal_value name = foldl (\<lambda>v c. v * 10 + (of_char c - 48)) 0 name"

definition re_three :: Regexp where
  "re_three = \<lparr>pattern = ''(a)(b)'', options = 0, caps = None, capnames = None,
     capslist = None, capsize = 3\<rparr>"

subsection \<open>The engine, from the specification\<close>

text \<open>
  Modelled from the spec: the compiled program and the backtracking machine
  (package syntax, runner.go) are missing.  The contract of the machine is: given
  the program, the input and a start position it returns a successful capture
  state or failure, or it aborts with a timeout.  A program is modelled by this
  function; \<open>Success e gs\<close> gives the position \<open>e\<close> at which the cursor stopped and
  the spans of the groups after group 0.
\<close>

datatype attempt = Fail | Timeout | Success nat "Capture list"

type_synonym program = "rune list \<Rightarrow> nat \<Rightarrow> attempt"

text \<open>
  Modelled from the spec: the start-position scan of the runner (runner.go) is
  missing.  The candidates are tried in order; the first success is the match.
  Group 0 spans the cursor motion between the start and the end of the attempt,
  and \<open>textpos\<close> is the position at which the match ended.
\<close>

fun scan :: "program \<Rightarrow> rune list \<Rightarrow> nat list \<Rightarrow> error + Match option" where
  "scan prog input [] = Inr None"
| "scan prog input (p # ps) =
     (case prog input p of
        Fail \<Rightarrow> scan prog input ps
      | Timeout \<Rightarrow> Inl (errors_New ''match timeout'')
      | Success e gs \<Rightarrow>
          Inr (Some \<lparr>Index = int (min p e), Length = int (max p e) - int (min p e),
                     mtext = input, textpos = int e, otherGroups = gs\<rparr>))"

text \<open>
  Modelled from the spec: \<open>Regexp.run\<close> (runner.go) is missing.  A negative start
  position means that the caller does not pin the start: the scan begins at 0,
  or at the end of the input for a right-to-left pattern (as \<open>getRunesAndStart\<close>
  does for strings).  The candidates are the positions from the start to the end
  of the input, or down to 0 for a right-to-left pattern.  The specification does
  not distinguish the quick mode, so the flag is not consulted.
\<close>

definition run_spec :: "program \<Rightarrow> engine" where
  "run_spec prog re quick startAt input =
     (let textstart = (if startAt < 0 then if RightToLeft re then len input else 0
                       else startAt)
      in if RightToLeft re
         then scan prog input (rev [0 ..< Suc (min (nat textstart) (length input))])
         else scan prog input [nat textstart ..< Suc (length input)])"

text \<open>
  The invariant of the runner state, \<open>0 \<le> pos \<le> len(input)\<close>, for the position at
  which an attempt ends; the cursor moves forwards, or backwards for a
  right-to-left pattern.
\<close>

definition program_ok :: "bool \<Rightarrow> program \<Rightarrow> bool" where
  "program_ok rtl prog \<longleftrightarrow>
     (\<forall>input p e gs. p \<le> length input \<and> prog input p = Success e gs \<longrightarrow>
        (if rtl then e \<le> p else p \<le> e \<and> e \<le> length input))"

text \<open>
  Three programs.  \<open>prog_empty\<close> is the empty pattern, which succeeds everywhere
  without moving.  \<open>prog_beginning\<close> is the anchor of the beginning of the input,
  which succeeds at position 0 only.  \<open>prog_p_az_ch\<close> is the pattern
  \<open>p([a-z]+)ch\<close>: the letter p, then the greedy loop over \<open>[a-z]\<close>, which takes as
  many letters as there are and gives them back one at a time until \<open>ch\<close> follows.
\<close>

definition prog_empty :: program where
  "prog_empty input p = Success p []"

definition prog_beginning :: program where
  "prog_beginning input p = (if p = 0 then Success 0 [] else Fail)"

definition lower_case :: "rune \<Rightarrow> bool" where
  "lower_case r \<longleftrightarrow> 97 \<le> r \<and> r \<le> 122"

definition prog_p_az_ch :: program where
  "prog_p_az_ch input p =
     (if p < length input \<and> input ! p = 112 then
        let n = length (takeWhile lower_case (drop (Suc p) input)) in
        case find (\<lambda>r. take 2 (drop r input) = [99, 104]) (rev [p + 2 ..< p + 2 + n]) of
          None \<Rightarrow> Fail
        | Some r \<Rightarrow> Success (r + 2) [\<lparr>Index = int p + 1, Length = int r - (int p + 1)\<rparr>]
      else Fail)"

text \<open>
  Find all, in the words of the specification: repeat find-next, at most \<open>k\<close>
  times, and halt on the first nil result.
\<close>

fun successive :: "engine \<Rightarrow> Regexp \<Rightarrow> nat \<Rightarrow> Match option \<Rightarrow> Match list" where
  "successive run re 0 mo = []"
| "successive run re (Suc k) None = []"
| "successive run re (Suc k) (Some m) =
     m # successive run re k (drop_error (FindNextMatch run re (Some m)))"

text \<open>
  A callback that replaces every match by a dash, as the function given to
  \<open>ReplaceAllFunc\<close> and as the function \<open>replaceAll\<close> receives.
\<close>

definition dash :: "string \<Rightarrow> string" where
  "dash piece = ''-''"

definition dash_repl :: repl where
  "dash_repl dst match = Inr (dst @ ''-'')"

subsection \<open>Replacing with a template, from the specification\<close>

text \<open>
  The conversion \<open>string(runes)\<close> of Go: every rune is encoded in UTF-8, and a
  value that is not a Unicode scalar is encoded as U+FFFD.
\<close>

definition EncodeRune :: "rune \<Rightarrow> string" where
  "EncodeRune r =
     (if r < 0 \<or> 0x10FFFF < r \<or> (0xD800 \<le> r \<and> r \<le> 0xDFFF) then
        [CHR 0xEF, CHR 0xBF, CHR 0xBD]
      else if r \<le> 0x7F then [char_of (nat r)]
      else if r \<le> 0x7FF then
        [char_of (nat (0xC0 + r div 64)), char_of (nat (0x80 + r mod 64))]
      else if r \<le> 0xFFFF then
        [char_of (nat (0xE0 + r div 4096)), char_of (nat (0x80 + r div 64 mod 64)),
         char_of (nat (0x80 + r mod 64))]
      else
        [char_of (nat (0xF0 + r div 262144)), char_of (nat (0x80 + r div 4096 mod 64)),
         char_of (nat (0x80 + r div 64 mod 64)), char_of (nat (0x80 + r mod 64))])"

definition string_of_runes :: "rune list \<Rightarrow> string" where
  "string_of_runes rs = concat (map EncodeRune rs)"

text \<open>
  Modelled from the spec: the replacement tokenizer \<open>syntax.NewReplacerData\<close> is
  missing.  The template is tokenized once into segments: literals, references to
  a group by number, and the special tokens.  \<open>$0\<close> and \<open>$&\<close> are the whole match,
  \<open>$$\<close> a literal dollar, and the tokens with a backquote, a quote, a plus and an
  underscore the text before the match, the text after it, the last group and
  the whole input.  A dollar that starts none of these is a malformed escape, and a
  number that is not the number of a group an invalid reference.  The
  specification gives no syntax for references by name, so there is none here.
\<close>

datatype segment =
  Literal rune | GroupNumber int | LastGroup | LeftPortion | RightPortion | WholeInput

definition is_digit_rune :: "rune \<Rightarrow> bool" where
  "is_digit_rune c \<longleftrightarrow> 48 \<le> c \<and> c \<le> 57"

function tokens :: "int option \<Rightarrow> rune list \<Rightarrow> segment list option" where
  "tokens None [] = Some []"
| "tokens (Some n) [] = Some [GroupNumber n]"
| "tokens (Some n) (c # cs) =
     (if is_digit_rune c then tokens (Some (10 * n + (c - 48))) cs
      else map_option (Cons (GroupNumber n)) (tokens None (c # cs)))"
| "tokens None (c # cs) =
     (if c \<noteq> 36 then map_option (Cons (Literal c)) (tokens None cs)
      else
        case cs of
          [] \<Rightarrow> None
        | d # ds \<Rightarrow>
            if d = 36 then map_option (Cons (Literal 36)) (tokens None ds)
            else if d = 38 then map_option (Cons (GroupNumber 0)) (tokens None ds)
            else if d = 96 then map_option (Cons LeftPortion) (tokens None ds)
            else if d = 39 then map_option (Cons RightPortion) (tokens None ds)
            else if d = 43 then map_option (Cons LastGroup) (tokens None ds)
            else if d = 95 then map_option (Cons WholeInput) (tokens None ds)
            else if is_digit_rune d then tokens (Some (d - 48)) ds
            else None)"
  by pat_completeness auto
termination
  by (relation "measure (\<lambda>(n, cs). 2 * length cs + (if n = None then 0 else 1))") auto

text \<open>
  The slot of a group number: the capture map when there is one, and the number
  itself, if it is below the number of slots, when numbering is dense.
\<close>

definition slot_of :: "(int \<rightharpoonup> int) option \<Rightarrow> int \<Rightarrow> int \<Rightarrow> int option" where
  "slot_of cps csize n =
     (case cps of
        None \<Rightarrow> if 0 \<le> n \<and> n < csize then Some n else None
      | Some m \<Rightarrow> m n)"

fun resolve :: "(int \<rightharpoonup> int) option \<Rightarrow> int \<Rightarrow> segment list \<Rightarrow> segment list option" where
  "resolve cps csize [] = Some []"
| "resolve cps csize (GroupNumber n # segs) =
     (case slot_of cps csize n of
        None \<Rightarrow> None
      | Some k \<Rightarrow> map_option (Cons (GroupNumber k)) (resolve cps csize segs))"
| "resolve cps csize (seg # segs) = map_option (Cons seg) (resolve cps csize segs)"

definition NewReplacerData ::
  "string \<Rightarrow> (int \<rightharpoonup> int) option \<Rightarrow> int \<Rightarrow> (string \<rightharpoonup> int) option \<Rightarrow> 32 word
     \<Rightarrow> error + segment list" where
  "NewReplacerData replacement cps csize names opts =
     (case tokens None (getRunes replacement) of
        None \<Rightarrow> Inl (errors_New ''malformed replacement template'')
      | Some segs \<Rightarrow>
          (case resolve cps csize segs of
             None \<Rightarrow> Inl (errors_New ''invalid backreference in replacement template'')
           | Some data \<Rightarrow> Inr data))"

text \<open>
  Modelled from the spec: the expansion of the template for one match.  A group
  reference stands for the text of the span of its slot.
\<close>

definition span_text :: "rune list \<Rightarrow> int \<Rightarrow> int \<Rightarrow> rune list" where
  "span_text input lo hi = take (nat (hi - lo)) (drop (nat lo) input)"

fun expand_segment :: "Match \<Rightarrow> segment \<Rightarrow> rune list" where
  "expand_segment m (Literal c) = [c]"
| "expand_segment m (GroupNumber k) =
     (if 0 \<le> k \<and> k < len (Groups m)
      then span_text (mtext m) (Index (Groups m ! nat k))
             (Index (Groups m ! nat k) + Length (Groups m ! nat k))
      else [])"
| "expand_segment m LastGroup =
     span_text (mtext m) (Index (last (Groups m)))
       (Index (last (Groups m)) + Length (last (Groups m)))"
| "expand_segment m LeftPortion = span_text (mtext m) 0 (Index m)"
| "expand_segment m RightPortion = span_text (mtext m) (Index m + Length m) (len (mtext m))"
| "expand_segment m WholeInput = mtext m"

definition expand :: "segment list \<Rightarrow> Match \<Rightarrow> rune list" where
  "expand data m = concat (map (expand_segment m) data)"

text \<open>
  Modelled from the spec: the function \<open>replace\<close> (replace.go) is missing.  For
  each match the unmatched text before it and the expanded replacement are
  emitted, and the unmatched rest of the input after the last match; a
  right-to-left pattern finds its matches from the end, so the pieces are put in
  front.  At most \<open>count\<close> matches are replaced, all of them when \<open>count\<close> is
  negative.  The engine may find a next match for ever, so the loop need not end.
\<close>

partial_function (option) replace_loop ::
  "engine \<Rightarrow> Regexp \<Rightarrow> segment list \<Rightarrow> rune list \<Rightarrow> int \<Rightarrow> int \<Rightarrow> rune list \<Rightarrow> Match option
     \<Rightarrow> (error + rune list) option" where
  "replace_loop run re data input count prevat out mo =
     (case mo of
        None \<Rightarrow>
          Some (Inr (if RightToLeft re then span_text input 0 prevat @ out
                     else out @ span_text input prevat (len input)))
      | Some m \<Rightarrow>
          if RightToLeft re then
            if count = 1 then
              Some (Inr (span_text input 0 (Index m) @ expand data m
                         @ span_text input (Index m + Length m) prevat @ out))
            else
              (case FindNextMatch run re (Some m) of
                 Inl err \<Rightarrow> Some (Inl err)
               | Inr mo' \<Rightarrow>
                   replace_loop run re data input (count - 1) (Index m)
                     (expand data m @ span_text input (Index m + Length m) prevat @ out) mo')
          else
            if count = 1 then
              Some (Inr (out @ span_text input prevat (Index m) @ expand data m
                         @ span_text input (Index m + Length m) (len input)))
            else
              (case FindNextMatch run re (Some m) of
                 Inl err \<Rightarrow> Some (Inl err)
               | Inr mo' \<Rightarrow>
                   replace_loop run re data input (count - 1) (Index m + Length m)
                     (out @ span_text input prevat (Index m) @ expand data m) mo'))"

declare replace_loop.simps [code]

definition replace ::
  "engine \<Rightarrow> Regexp \<Rightarrow> segment list \<Rightarrow> string \<Rightarrow> int \<Rightarrow> int \<Rightarrow> (error + string) option" where
  "replace run re data input startAt count =
     (if count = 0 then Some (Inr input)
      else
        case FindStringMatchStartingAt run re input startAt of
          Inl err \<Rightarrow> Some (Inl err)
        | Inr None \<Rightarrow> Some (Inr input)
        | Inr (Some m) \<Rightarrow>
            (case replace_loop run re data (mtext m) count
                    (if RightToLeft re then len (mtext m) else 0) [] (Some m) of
               None \<Rightarrow> None
             | Some (Inl err) \<Rightarrow> Some (Inl err)
             | Some (Inr out) \<Rightarrow> Some (Inr (string_of_runes out))))"

text \<open>
  \<open>Replace\<close> itself is in regexp.go: the template is tokenized, an error of the
  tokenizer is returned, and the matches are replaced.
\<close>

definition Replace ::
  "engine \<Rightarrow> Regexp \<Rightarrow> string \<Rightarrow> string \<Rightarrow> int \<Rightarrow> int \<Rightarrow> (error + string) option" where
  "Replace run re input replacement startAt count =
     (case NewReplacerData replacement (caps re) (capsize re) (capnames re) (options re) of
        Inl err \<Rightarrow> Some (Inl err)
      | Inr data \<Rightarrow> replace run re data input startAt count)"

section \<open>Properties\<close>

text \<open>
  C9: \<open>FindNextMatch\<close> called with a nil match returns \<open>(nil, nil)\<close>, no match and
  no error, whatever the receiver and whatever the engine does.
\<close>

theorem FindNextMatch_nil: "FindNextMatch run re None = Inr None"
  by (simp add: FindNextMatch_def)

text \<open>
  C10: for a compiled pattern without a capture-name table (\<open>capnames\<close> is nil; a
  compiled pattern has at least the whole-match slot, so \<open>capsize\<close> is positive),
  \<open>GroupNumberFromName\<close> on the empty name returns 0 and not -1: the digit loop
  does not run and leaves \<open>result\<close> at 0.
\<close>

theorem GroupNumberFromName_empty:
  assumes "capnames re = None" and "0 < capsize re"
  shows "GroupNumberFromName re [] = 0 \<and> GroupNumberFromName re [] \<noteq> - 1"
  using assms by (simp add: GroupNumberFromName_def)

theorem GroupNumberFromName_empty_witness:
  "capnames \<lparr>pattern = ''a'', options = 0, caps = None, capnames = None,
      capslist = None, capsize = 1\<rparr> = None
   \<and> 0 < capsize \<lparr>pattern = ''a'', options = 0, caps = None, capnames = None,
      capslist = None, capsize = 1\<rparr>
   \<and> GroupNumberFromName \<lparr>pattern = ''a'', options = 0, caps = None, capnames = None,
      capslist = None, capsize = 1\<rparr> [] = 0"
  using GroupNumberFromName_empty
    [of "\<lparr>pattern = ''a'', options = 0, caps = None, capnames = None, capslist = None, capsize = 1\<rparr>"]
  by simp

subsection \<open>Start positions in a string\<close>

lemma range_string_bounds:
  "(p, r) \<in> set (range_string i s) \<Longrightarrow> int i \<le> p \<and> p < int i + int (length s)"
proof (induction i s rule: range_string.induct)
  case (1 i)
  then show ?case by simp
next
  case (2 i c cs)
  let ?w = "snd (DecodeRuneInString (c # cs))"
  have w: "1 \<le> ?w" "?w \<le> length (c # cs)"
    using DecodeRuneInString_width_pos [of "c # cs"] DecodeRuneInString_width_le [of "c # cs"]
    by simp_all
  from "2.prems" consider "p = int i" | "(p, r) \<in> set (range_string (i + ?w) (drop ?w (c # cs)))"
    by auto
  then show ?case
  proof cases
    case 1
    then show ?thesis by simp
  next
    case 2
    from "2.IH" [OF 2] w show ?thesis by simp
  qed
qed

lemma range_string_sorted: "sorted_wrt (<) (map fst (range_string i s))"
proof (induction i s rule: range_string.induct)
  case (1 i)
  then show ?case by simp
next
  case (2 i c cs)
  let ?w = "snd (DecodeRuneInString (c # cs))"
  have w: "1 \<le> ?w"
    using DecodeRuneInString_width_pos [of "c # cs"] by simp
  have "int i < p" if "(p, r) \<in> set (range_string (i + ?w) (drop ?w (c # cs)))" for p r
    using range_string_bounds [OF that] w by simp
  with "2.IH" show ?case by auto
qed

lemma start_loop_miss:
  "startAt \<notin> fst ` set items \<Longrightarrow> start_loop startAt items i d = d"
  by (induction startAt items i d rule: start_loop.induct) auto

lemma start_loop_hit:
  "distinct (map fst items) \<Longrightarrow> k < length items \<Longrightarrow> fst (items ! k) = startAt
   \<Longrightarrow> start_loop startAt items i d = i + int k"
proof (induction startAt items i d arbitrary: k rule: start_loop.induct)
  case (1 startAt i runeIdx)
  then show ?case by simp
next
  case (2 startAt strIdx r rest i runeIdx)
  show ?case
  proof (cases k)
    case 0
    with "2.prems" have "strIdx = startAt" "startAt \<notin> fst ` set rest" by auto
    then show ?thesis using 0 by (simp add: start_loop_miss)
  next
    case (Suc j)
    with "2.prems" have "distinct (map fst rest)" "j < length rest" "fst (rest ! j) = startAt"
      by auto
    from "2.IH" [OF this] show ?thesis using Suc by simp
  qed
qed

lemma rune_offsets_distinct: "distinct (rune_offsets s)"
  unfolding rune_offsets_def
  using range_string_sorted [of 0 s] by (simp add: strict_sorted_iff)

lemma rune_offsets_range: "p \<in> set (rune_offsets s) \<Longrightarrow> 0 \<le> p \<and> p < len s"
  unfolding rune_offsets_def len_def
  using range_string_bounds [of p _ 0 s] by auto

lemma getRunesAndStart_aligned:
  assumes "k < length (rune_offsets s)" and "rune_offsets s ! k = startAt"
  shows "getRunesAndStart re s startAt = (getRunes s, int k)"
proof -
  have "startAt \<in> set (rune_offsets s)"
    using assms nth_mem by blast
  then have nonneg: "0 \<le> startAt"
    using rune_offsets_range by blast
  have "start_loop startAt (range_string 0 s) 0 (- 1) = 0 + int k"
  proof (rule start_loop_hit)
    show "distinct (map fst (range_string 0 s))"
      using rune_offsets_distinct [of s] by (simp add: rune_offsets_def)
    show "k < length (range_string 0 s)"
      using assms(1) by (simp add: rune_offsets_def)
    show "fst (range_string 0 s ! k) = startAt"
      using assms by (simp add: rune_offsets_def)
  qed
  with nonneg show ?thesis
    by (simp add: getRunesAndStart_def getRunes_def)
qed

lemma getRunesAndStart_misaligned:
  assumes "0 \<le> startAt" and "startAt \<notin> set (rune_offsets s)"
  shows "getRunesAndStart re s startAt = (getRunes s, - 1)"
  using assms
  by (simp add: getRunesAndStart_def getRunes_def rune_offsets_def start_loop_miss)

text \<open>
  C4 (as amended): \<open>FindStringMatchStartingAt\<close> on a string \<open>s\<close>.  A negative
  \<open>startAt\<close> is not an error: the search starts at the default position, 0 or, for
  a right-to-left pattern, the number of runes.  For \<open>0 \<le> startAt < len(s)\<close> the
  alignment error is returned, without any search, when \<open>startAt\<close> is not the byte
  offset at which a rune starts; when it is the offset of the \<open>k\<close>-th rune the
  result is that of the engine started at rune index \<open>k\<close>.  For \<open>startAt > len(s)\<close>
  the length error is returned.
\<close>

theorem FindStringMatchStartingAt_cases:
  "(startAt < 0 \<longrightarrow>
      FindStringMatchStartingAt run re s startAt =
        run re False (if RightToLeft re then len (getRunes s) else 0) (getRunes s))
   \<and> (0 \<le> startAt \<and> startAt < len s \<and> startAt \<notin> set (rune_offsets s) \<longrightarrow>
      FindStringMatchStartingAt run re s startAt =
        Inl (errors_New
          ''startAt must align to the start of a valid rune in the input string''))
   \<and> (k < length (rune_offsets s) \<and> rune_offsets s ! k = startAt \<longrightarrow>
      FindStringMatchStartingAt run re s startAt = run re False (int k) (getRunes s))
   \<and> (len s < startAt \<longrightarrow>
      FindStringMatchStartingAt run re s startAt =
        Inl (errors_New ''startAt must be less than the length of the input string''))"
proof (intro conjI impI)
  assume "startAt < 0"
  moreover have "0 \<le> len s" by (simp add: len_def)
  ultimately show "FindStringMatchStartingAt run re s startAt =
      run re False (if RightToLeft re then len (getRunes s) else 0) (getRunes s)"
    by (simp add: FindStringMatchStartingAt_def getRunesAndStart_def len_def)
next
  assume "0 \<le> startAt \<and> startAt < len s \<and> startAt \<notin> set (rune_offsets s)"
  then show "FindStringMatchStartingAt run re s startAt =
      Inl (errors_New ''startAt must align to the start of a valid rune in the input string'')"
    by (simp add: FindStringMatchStartingAt_def getRunesAndStart_misaligned)
next
  assume a: "k < length (rune_offsets s) \<and> rune_offsets s ! k = startAt"
  then have "startAt \<in> set (rune_offsets s)"
    using nth_mem by blast
  then have "startAt < len s"
    using rune_offsets_range by blast
  moreover from a have "getRunesAndStart re s startAt = (getRunes s, int k)"
    by (simp add: getRunesAndStart_aligned)
  ultimately show "FindStringMatchStartingAt run re s startAt = run re False (int k) (getRunes s)"
    by (simp add: FindStringMatchStartingAt_def)
next
  assume "len s < startAt"
  then show "FindStringMatchStartingAt run re s startAt =
      Inl (errors_New ''startAt must be less than the length of the input string'')"
    by (simp add: FindStringMatchStartingAt_def)
qed


lemma rune_offsets_example: "rune_offsets [CHR 0x61, CHR 0xC3, CHR 0xA9] = [0, 1]"
  by (simp add: rune_offsets_def DecodeRuneInString_def)
lemma getRunes_example: "getRunes [CHR 0x61, CHR 0xC3, CHR 0xA9] = [97, 233]"
  by (simp add: getRunes_def DecodeRuneInString_def)

theorem FindStringMatchStartingAt_cases_witness:
  "FindStringMatchStartingAt echo_engine re_rtl [CHR 0x61, CHR 0xC3, CHR 0xA9] (- 1) =
     echo_engine re_rtl False 2 [97, 233]
   \<and> FindStringMatchStartingAt echo_engine re_ltr [CHR 0x61, CHR 0xC3, CHR 0xA9] 2 =
       Inl (errors_New ''startAt must align to the start of a valid rune in the input string'')
   \<and> FindStringMatchStartingAt echo_engine re_ltr [CHR 0x61, CHR 0xC3, CHR 0xA9] 1 =
       echo_engine re_ltr False 1 [97, 233]
   \<and> FindStringMatchStartingAt echo_engine re_ltr [CHR 0x61, CHR 0xC3, CHR 0xA9] 4 =
       Inl (errors_New ''startAt must be less than the length of the input string'')"
  using FindStringMatchStartingAt_cases [of "- 1" echo_engine re_rtl "[CHR 0x61, CHR 0xC3, CHR 0xA9]" 0]
    FindStringMatchStartingAt_cases [of 2 echo_engine re_ltr "[CHR 0x61, CHR 0xC3, CHR 0xA9]" 0]
    FindStringMatchStartingAt_cases [of 1 echo_engine re_ltr "[CHR 0x61, CHR 0xC3, CHR 0xA9]" 1]
    FindStringMatchStartingAt_cases [of 4 echo_engine re_ltr "[CHR 0x61, CHR 0xC3, CHR 0xA9]" 0]
  by (simp add: rune_offsets_example getRunes_example len_def RightToLeft_def re_rtl_def re_ltr_def RightToLeft_opt_def)

text \<open>
  The claim as stated fails for a negative \<open>startAt\<close>, which lies outside the input
  and is accepted: the engine is started at position 0 and its match is returned.
\<close>

theorem FindStringMatchStartingAt_negative_counterexample:
  "FindStringMatchStartingAt echo_engine re_ltr ''a'' (- 1) =
     Inr (Some \<lparr>Index = 0, Length = 0, mtext = [97], textpos = 0, otherGroups = []\<rparr>)"
  by (simp add: FindStringMatchStartingAt_def getRunesAndStart_def getRunes_def
      DecodeRuneInString_def echo_engine_def re_ltr_def RightToLeft_def RightToLeft_opt_def len_def)


subsection \<open>Names of unnamed groups\<close>

lemma wrap64_id: "- (2 ^ 63) \<le> x \<Longrightarrow> x < 2 ^ 63 \<Longrightarrow> wrap64 x = x"
  by (simp add: wrap64_def)

lemma foldl_decimal_mono: "v \<le> foldl (\<lambda>v c. v * 10 + (of_char c - 48)) (v::nat) cs"
proof (induction cs arbitrary: v)
  case Nil
  then show ?case by simp
next
  case (Cons c cs)
  have "v \<le> v * 10 + (of_char c - 48)" by simp
  also have "\<dots> \<le> foldl (\<lambda>v c. v * 10 + (of_char c - 48)) (v * 10 + (of_char c - 48)) cs"
    by (rule Cons.IH)
  finally show ?case by simp
qed

lemma digits_loop_value:
  "\<forall>c \<in> set name. is_digit c \<Longrightarrow>
   int (foldl (\<lambda>v c. v * 10 + (of_char c - 48)) v name) < 2 ^ 63 \<Longrightarrow>
   digits_loop (int v) name = Some (int (foldl (\<lambda>v c. v * 10 + (of_char c - 48)) v name))"
proof (induction name arbitrary: v)
  case Nil
  then show ?case by simp
next
  case (Cons c cs)
  let ?v' = "v * 10 + (of_char c - 48)"
  have dig: "(48::nat) \<le> of_char c" "(of_char c :: nat) \<le> 57"
    using Cons.prems(1) by (simp_all add: is_digit_def)
  have "?v' \<le> foldl (\<lambda>v c. v * 10 + (of_char c - 48)) ?v' cs"
    by (rule foldl_decimal_mono)
  with Cons.prems(2) have small: "int ?v' < 2 ^ 63" by simp
  have "int v * 10 \<le> int ?v'" by simp
  with small have s1: "int v * 10 < 2 ^ 63" by linarith
  have w1: "wrap64 (int v * 10) = int v * 10"
    using s1 by (intro wrap64_id) simp_all
  have e: "int v * 10 + int (of_char c - 48) = int ?v'" by simp
  have w2: "wrap64 (int v * 10 + int (of_char c - 48)) = int ?v'"
    unfolding e using small by (intro wrap64_id) simp_all
  have "digits_loop (int v) (c # cs) = digits_loop (int ?v') cs"
    using dig w1 w2 by simp
  also have "\<dots> = Some (int (foldl (\<lambda>v c. v * 10 + (of_char c - 48)) ?v' cs))"
    using Cons.prems by (intro Cons.IH) simp_all
  finally show ?case by simp
qed

lemma digits_loop_non_digit:
  "\<exists>c \<in> set name. \<not> is_digit c \<Longrightarrow> digits_loop result name = None"
  by (induction name arbitrary: result) (auto simp: is_digit_def)

lemma of_char_digit_char: "d < 10 \<Longrightarrow> (of_char (digit_char d) :: nat) = 48 + d"
  by (simp add: digit_char_def)

lemma Itoa_nat_digits: "\<forall>c \<in> set (Itoa_nat n). is_digit c"
proof (induction n rule: Itoa_nat.induct)
  case (1 n)
  show ?case
  proof (cases "n < 10")
    case True
    then show ?thesis
      by (subst Itoa_nat.simps) (simp add: is_digit_def of_char_digit_char)
  next
    case False
    have "is_digit (digit_char (n mod 10))"
      by (simp add: is_digit_def of_char_digit_char)
    with False "1.IH" show ?thesis
      by (subst Itoa_nat.simps) simp
  qed
qed

lemma Itoa_nat_value: "decimal_value (Itoa_nat n) = n"
proof (induction n rule: Itoa_nat.induct)
  case (1 n)
  show ?case
  proof (cases "n < 10")
    case True
    then show ?thesis
      by (subst Itoa_nat.simps) (simp add: decimal_value_def of_char_digit_char)
  next
    case False
    with "1.IH" have "decimal_value (Itoa_nat (n div 10)) = n div 10" by simp
    with False show ?thesis
      by (subst Itoa_nat.simps) (simp add: decimal_value_def of_char_digit_char)
  qed
qed

lemma Itoa_nat_nonempty: "Itoa_nat n \<noteq> []"
  by (subst Itoa_nat.simps) simp

lemma GroupNumberFromName_digits:
  assumes "capnames re = None" and "\<forall>c \<in> set name. is_digit c"
    and "int (decimal_value name) < 2 ^ 63"
  shows "GroupNumberFromName re name =
    (if int (decimal_value name) < capsize re then int (decimal_value name) else - 1)"
proof -
  have "digits_loop (int 0) name = Some (int (decimal_value name))"
    unfolding decimal_value_def
    using assms(2,3) by (intro digits_loop_value) (simp_all add: decimal_value_def)
  then show ?thesis
    using assms(1) by (simp add: GroupNumberFromName_def)
qed

text \<open>
  C8 (as amended): for a compiled pattern without named groups (\<open>capnames\<close> and
  \<open>capslist\<close> are nil, \<open>capsize\<close> is a Go \<open>int\<close>), \<open>GroupNumberFromName\<close> maps the
  decimal representation of \<open>k\<close> to \<open>k\<close> whenever \<open>0 \<le> k < capsize\<close>; it returns -1
  for every name with a byte that is not a decimal digit; a non-empty all-digits
  name, leading zeros allowed, whose value fits a Go \<open>int\<close> is mapped to that value
  when it is below \<open>capsize\<close> and to -1 otherwise.  \<open>GroupNameFromNumber\<close> returns the
  decimal string of a slot number in range and the empty string for any other
  number.
\<close>

theorem GroupNumberFromName_unnamed:
  assumes "capnames re = None" and "capslist re = None" and "capsize re < 2 ^ 63"
  shows "(0 \<le> k \<and> k < capsize re \<longrightarrow> GroupNumberFromName re (Itoa k) = k)
    \<and> ((\<exists>c \<in> set name. \<not> is_digit c) \<longrightarrow> GroupNumberFromName re name = - 1)
    \<and> (name \<noteq> [] \<and> (\<forall>c \<in> set name. is_digit c) \<and> int (decimal_value name) < 2 ^ 63 \<longrightarrow>
         GroupNumberFromName re name =
           (if int (decimal_value name) < capsize re then int (decimal_value name) else - 1))
    \<and> GroupNameFromNumber re i = (if 0 \<le> i \<and> i < capsize re then Itoa i else [])"
proof (intro conjI impI)
  assume k: "0 \<le> k \<and> k < capsize re"
  then have it: "Itoa k = Itoa_nat (nat k)" by (simp add: Itoa_def)
  have "int (decimal_value (Itoa_nat (nat k))) = k"
    using k by (simp add: Itoa_nat_value)
  moreover have "GroupNumberFromName re (Itoa_nat (nat k)) =
    (if int (decimal_value (Itoa_nat (nat k))) < capsize re
     then int (decimal_value (Itoa_nat (nat k))) else - 1)"
    using assms(1,3) k
    by (intro GroupNumberFromName_digits) (simp_all add: Itoa_nat_digits Itoa_nat_value)
  ultimately show "GroupNumberFromName re (Itoa k) = k"
    using k it by simp
next
  assume "\<exists>c \<in> set name. \<not> is_digit c"
  then have "digits_loop 0 name = None"
    by (rule digits_loop_non_digit)
  then show "GroupNumberFromName re name = - 1"
    using assms(1) by (simp add: GroupNumberFromName_def)
next
  assume "name \<noteq> [] \<and> (\<forall>c \<in> set name. is_digit c) \<and> int (decimal_value name) < 2 ^ 63"
  then show "GroupNumberFromName re name =
      (if int (decimal_value name) < capsize re then int (decimal_value name) else - 1)"
    using assms(1) by (intro GroupNumberFromName_digits) simp_all
next
  show "GroupNameFromNumber re i = (if 0 \<le> i \<and> i < capsize re then Itoa i else [])"
    using assms(2) by (simp add: GroupNameFromNumber_def)
qed

lemma Itoa_2: "Itoa 2 = ''2''"
  by code_simp

lemma Itoa_0: "Itoa 0 = ''0''"
  by code_simp

theorem GroupNumberFromName_unnamed_witness:
  "GroupNumberFromName re_three ''2'' = 2
   \<and> GroupNumberFromName re_three ''a1'' = - 1
   \<and> GroupNumberFromName re_three ''02'' = 2
   \<and> GroupNumberFromName re_three ''7'' = - 1
   \<and> GroupNameFromNumber re_three 2 = ''2''
   \<and> GroupNameFromNumber re_three 3 = []"
  using GroupNumberFromName_unnamed [of re_three 2 "''a1''" 2]
    GroupNumberFromName_unnamed [of re_three 2 "''02''" 3]
    GroupNumberFromName_unnamed [of re_three 2 "''7''" 3]
  by (simp add: re_three_def Itoa_2 is_digit_def decimal_value_def)

text \<open>
  The claim as stated fails on a name with a leading zero: \<open>00\<close> is not the name
  of any group, and it is mapped to slot 0.
\<close>

theorem GroupNumberFromName_leading_zero_counterexample:
  "''00'' \<notin> set (GetGroupNames re_ltr) \<and> GroupNumberFromName re_ltr ''00'' = 0"
  by (simp add: GetGroupNames_def re_ltr_def GroupNumberFromName_def wrap64_def Itoa_0)

subsection \<open>Quoting\<close>

lemma special_False: "\<not> special b"
proof -
  have "of_char b mod 16 < (16::nat)" by simp
  then have "specialBytes ! (of_char b mod 16) = 0"
    unfolding specialBytes_def by (rule nth_replicate)
  then show ?thesis by (simp add: special_def)
qed

lemma first_special_length: "first_special s = length s"
  by (induction s) (simp_all add: special_False)

text \<open>
  C3: \<open>QuoteMeta\<close> is meant to escape every metacharacter of its argument, so that
  the result is a pattern that matches the argument literally.  With the bitmap
  \<open>specialBytes\<close> left at its zero value no byte is special, and \<open>QuoteMeta\<close> returns
  every string unchanged: the metacharacters of \<open>(a.b\<close> are not escaped.
\<close>

theorem QuoteMeta_escapes_nothing: "QuoteMeta s = s \<and> QuoteMeta ''(a.b'' = ''(a.b''"
  by (simp add: QuoteMeta_def first_special_length)

subsection \<open>The next match of a right-to-left pattern\<close>

text \<open>
  C2: \<open>FindNextMatch\<close> is meant never to return the span of its argument again.
  For a right-to-left pattern it does: when the first match \<open>m\<close> of a non-empty
  input is a zero-width match at position 0, the start position is moved back to
  -1, which is the value that \<open>FindRunesMatch\<close> passes for a search from the
  default position.  The search starts over and the next match is \<open>m\<close> itself,
  for every engine.
\<close>

theorem FindNextMatch_rtl_same_match:
  assumes "RightToLeft re" and "FindRunesMatch run re r = Inr (Some m)"
    and "mtext m = r" and "r \<noteq> []" and "Length m = 0" and "textpos m = 0"
  shows "FindNextMatch run re (Some m) = Inr (Some m)"
  using assms by (simp add: FindNextMatch_def FindRunesMatch_def len_def)

lemma re_rtl_RightToLeft: "RightToLeft re_rtl"
  by (simp add: RightToLeft_def re_rtl_def RightToLeft_opt_def)

lemma re_ltr_not_RightToLeft: "\<not> RightToLeft re_ltr"
  by (simp add: RightToLeft_def re_ltr_def)

lemma FindRunesMatch_beginning_rtl:
  "FindRunesMatch (run_spec prog_beginning) re_rtl [97] =
     Inr (Some \<lparr>Index = 0, Length = 0, mtext = [97], textpos = 0, otherGroups = []\<rparr>)"
  by (simp add: FindRunesMatch_def run_spec_def re_rtl_RightToLeft len_def prog_beginning_def)

theorem FindNextMatch_rtl_same_match_witness:
  "RightToLeft re_rtl
   \<and> FindRunesMatch (run_spec prog_beginning) re_rtl [97] =
       Inr (Some \<lparr>Index = 0, Length = 0, mtext = [97], textpos = 0, otherGroups = []\<rparr>)
   \<and> FindNextMatch (run_spec prog_beginning) re_rtl
       (Some \<lparr>Index = 0, Length = 0, mtext = [97], textpos = 0, otherGroups = []\<rparr>)
     = Inr (Some \<lparr>Index = 0, Length = 0, mtext = [97], textpos = 0, otherGroups = []\<rparr>)"
  using FindNextMatch_rtl_same_match [OF re_rtl_RightToLeft FindRunesMatch_beginning_rtl]
    re_rtl_RightToLeft FindRunesMatch_beginning_rtl
  by simp

subsection \<open>Matching and finding\<close>

lemma range_string_length: "length (range_string i s) \<le> length s"
proof (induction i s rule: range_string.induct)
  case (1 i)
  then show ?case by simp
next
  case (2 i c cs)
  let ?w = "snd (DecodeRuneInString (c # cs))"
  have "1 \<le> ?w" using DecodeRuneInString_width_pos [of "c # cs"] by simp
  then have "length (drop ?w (c # cs)) \<le> length cs" by simp
  with "2.IH" show ?case by simp
qed

lemma getRunes_length: "len (getRunes s) \<le> len s"
  by (simp add: getRunes_def len_def range_string_length)

lemma scan_Some:
  assumes "scan prog input ps = Inr (Some m)"
  shows "\<exists>p e gs. p \<in> set ps \<and> prog input p = Success e gs
     \<and> m = \<lparr>Index = int (min p e), Length = int (max p e) - int (min p e),
            mtext = input, textpos = int e, otherGroups = gs\<rparr>"
  using assms
proof (induction ps)
  case Nil
  then show ?case by simp
next
  case (Cons p ps)
  show ?case
  proof (cases "prog input p")
    case Fail
    with Cons show ?thesis by auto
  next
    case Timeout
    with Cons.prems show ?thesis by simp
  next
    case (Success e gs)
    with Cons.prems show ?thesis by auto
  qed
qed

lemma run_spec_candidate:
  assumes "run_spec prog re quick startAt input = Inr (Some m)"
  shows "\<exists>p e gs. p \<le> length input \<and> prog input p = Success e gs
     \<and> m = \<lparr>Index = int (min p e), Length = int (max p e) - int (min p e),
            mtext = input, textpos = int e, otherGroups = gs\<rparr>"
proof -
  obtain ps where ps: "scan prog input ps = Inr (Some m)" and le: "\<forall>p \<in> set ps. p \<le> length input"
  proof (cases "RightToLeft re")
    case True
    with assms obtain k where
      "scan prog input (rev [0 ..< Suc (min k (length input))]) = Inr (Some m)"
      by (auto simp: run_spec_def Let_def)
    moreover have "\<forall>p \<in> set (rev [0 ..< Suc (min k (length input))]). p \<le> length input"
      by auto
    ultimately show ?thesis by (rule that)
  next
    case False
    with assms obtain k where "scan prog input [k ..< Suc (length input)] = Inr (Some m)"
      by (auto simp: run_spec_def Let_def)
    moreover have "\<forall>p \<in> set [k ..< Suc (length input)]. p \<le> length input"
      by auto
    ultimately show ?thesis by (rule that)
  qed
  from scan_Some [OF ps] le show ?thesis by blast
qed

lemma run_spec_span:
  assumes ok: "program_ok (RightToLeft re) prog"
    and run: "run_spec prog re quick startAt input = Inr (Some m)"
  shows "0 \<le> Index m \<and> 0 \<le> Length m \<and> Index m + Length m \<le> len input"
proof -
  from run_spec_candidate [OF run] obtain p e gs where
    p: "p \<le> length input" and res: "prog input p = Success e gs"
    and m: "m = \<lparr>Index = int (min p e), Length = int (max p e) - int (min p e),
            mtext = input, textpos = int e, otherGroups = gs\<rparr>"
    by blast
  from ok p res have "if RightToLeft re then e \<le> p else p \<le> e \<and> e \<le> length input"
    unfolding program_ok_def by blast
  with p have "max p e \<le> length input"
    by (auto split: if_splits)
  then show ?thesis
    by (simp add: m len_def)
qed

text \<open>
  C1: if \<open>MatchString\<close> returns true without error, \<open>FindStringMatch\<close> on the same
  pattern and string returns a match whose group 0 starts at or after 0 and ends
  at or before \<open>len(s)\<close>.  The engine is the one described by the specification,
  running a program that keeps the cursor inside the input.
\<close>

theorem MatchString_FindStringMatch:
  assumes "program_ok (RightToLeft re) prog"
    and "MatchString (run_spec prog) re s = Inr True"
  shows "\<exists>m. FindStringMatch (run_spec prog) re s = Inr (Some m)
     \<and> 0 \<le> Index m \<and> 0 \<le> Length m \<and> Index m + Length m \<le> len s"
proof -
  from assms(2) obtain m where "run_spec prog re True (- 1) (getRunes s) = Inr (Some m)"
    by (auto simp: MatchString_def split: sum.splits)
  then have found: "run_spec prog re False (- 1) (getRunes s) = Inr (Some m)"
    by (simp add: run_spec_def)
  from run_spec_span [OF assms(1) found] getRunes_length [of s]
  have "0 \<le> Index m \<and> 0 \<le> Length m \<and> Index m + Length m \<le> len s"
    by linarith
  with found show ?thesis
    by (simp add: FindStringMatch_def)
qed

lemma find_Some_set: "find P xs = Some x \<Longrightarrow> x \<in> set xs \<and> P x"
  by (induction xs) (auto split: if_splits)

lemma prog_p_az_ch_ok: "program_ok False prog_p_az_ch"
proof -
  have *: "p \<le> e \<and> e \<le> length input" if "prog_p_az_ch input p = Success e gs" for input p e gs
  proof -
    let ?n = "length (takeWhile lower_case (drop (Suc p) input))"
    from that obtain r where r: "find (\<lambda>r. take 2 (drop r input) = [99, 104]) (rev [p + 2 ..< p + 2 + ?n]) = Some r"
      and e: "e = r + 2"
      by (auto simp: prog_p_az_ch_def Let_def split: if_splits option.splits)
    from find_Some_set [OF r]
    have mem: "r \<in> set (rev [p + 2 ..< p + 2 + ?n])" and ch: "take 2 (drop r input) = [99, 104]"
      by blast+
    from mem have "p + 2 \<le> r" unfolding set_rev set_upt by simp
    then have "p \<le> r" by simp
    from ch have "length (take 2 (drop r input)) = 2" by simp
    then have "r + 2 \<le> length input" by simp
    with \<open>p \<le> r\<close> e show ?thesis by simp
  qed
  show ?thesis
    unfolding program_ok_def
  proof (intro allI impI)
    fix input p e gs
    assume "p \<le> length input \<and> prog_p_az_ch input p = Success e gs"
    then show "if False then e \<le> p else p \<le> e \<and> e \<le> length input"
      using * [of input p e gs] by simp
  qed
qed
lemma MatchString_example:
  "MatchString (run_spec prog_p_az_ch) re_ltr ''a peach'' = Inr True"
  by (simp add: MatchString_def run_spec_def re_ltr_not_RightToLeft getRunes_def
      DecodeRuneInString_def prog_p_az_ch_def lower_case_def upt_rec)

theorem MatchString_FindStringMatch_witness:
  "program_ok (RightToLeft re_ltr) prog_p_az_ch
   \<and> MatchString (run_spec prog_p_az_ch) re_ltr ''a peach'' = Inr True
   \<and> (\<exists>m. FindStringMatch (run_spec prog_p_az_ch) re_ltr ''a peach'' = Inr (Some m)
        \<and> 0 \<le> Index m \<and> 0 \<le> Length m \<and> Index m + Length m \<le> len ''a peach'')"
proof -
  have ok: "program_ok (RightToLeft re_ltr) prog_p_az_ch"
    using prog_p_az_ch_ok by (simp add: re_ltr_not_RightToLeft)
  from MatchString_FindStringMatch [OF ok MatchString_example] ok MatchString_example show ?thesis by blast
qed

subsection \<open>Finding all matches\<close>

lemma successive_None: "successive run re k None = []"
  by (cases k) simp_all

lemma successive_length: "length (successive run re k mo) \<le> k"
proof (induction k arbitrary: mo)
  case 0
  then show ?case by simp
next
  case (Suc k)
  then show ?case by (cases mo) simp_all
qed

lemma Groups_nonempty: "len (Groups m) > 0"
  by (simp add: Groups_def len_def)

lemma FindAllStringIndex_loop_successive:
  "FindAllStringIndex_loop run re n c mo result =
     result @ map (\<lambda>m. span (Groups m ! 0)) (successive run re (nat (n - c)) mo)"
proof (induction run re n c mo result rule: FindAllStringIndex_loop.induct)
  case (1 run re n c result)
  then show ?case by (simp add: successive_None)
next
  case (2 run re n c m result)
  show ?case
  proof (cases "c < n")
    case True
    then have "nat (n - c) = Suc (nat (n - (c + 1)))" by simp
    with True "2.IH" show ?thesis
      by (simp add: Groups_nonempty)
  next
    case False
    then show ?thesis by simp
  qed
qed

lemma FindAllStringSubmatchIndex_loop_successive:
  "FindAllStringSubmatchIndex_loop run re n c mo result =
     result @ map (\<lambda>m. concat (map span (Groups m))) (successive run re (nat (n - c)) mo)"
proof (induction run re n c mo result rule: FindAllStringSubmatchIndex_loop.induct)
  case (1 run re n c result)
  then show ?case by (simp add: successive_None)
next
  case (2 run re n c m result)
  show ?case
  proof (cases "c < n")
    case True
    then have "nat (n - c) = Suc (nat (n - (c + 1)))" by simp
    with True "2.IH" show ?thesis by simp
  next
    case False
    then show ?thesis by simp
  qed
qed

lemma run_spec_ltr:
  "\<not> RightToLeft re \<Longrightarrow>
   run_spec prog re quick (int k) input = scan prog input [k ..< Suc (length input)]"
  by (simp add: run_spec_def)

lemma next_ltr_match:
  assumes ltr: "\<not> RightToLeft re" and ok: "program_ok False prog"
    and found: "run_spec prog re quick (int k) input = Inr (Some m)"
  shows "\<exists>k'. k < k' \<and> int k \<le> Index m \<and> 0 \<le> Length m \<and> Index m + Length m \<le> len input
    \<and> Index m + Length m \<le> int k' \<and> Index m < int k' \<and> mtext m = input \<and>
    FindNextMatch (run_spec prog) re (Some m) = run_spec prog re False (int k') input"
proof -
  from found ltr have "scan prog input [k ..< Suc (length input)] = Inr (Some m)"
    by (simp add: run_spec_ltr)
  from scan_Some [OF this] obtain p e gs where
    p: "p \<in> set [k ..< Suc (length input)]" and res: "prog input p = Success e gs"
    and m: "m = \<lparr>Index = int (min p e), Length = int (max p e) - int (min p e),
            mtext = input, textpos = int e, otherGroups = gs\<rparr>"
    by blast
  from p have kp: "k \<le> p" "p \<le> length input" by auto
  with ok res have pe: "p \<le> e" "e \<le> length input"
    unfolding program_ok_def by (metis (full_types))+
  have facts: "int k \<le> Index m" "0 \<le> Length m" "Index m + Length m \<le> len input"
    "Index m + Length m = int e" "mtext m = input" "Index m = int p"
    using kp pe by (simp_all add: m len_def)
  show ?thesis
  proof (cases "e = p")
    case True
    show ?thesis
    proof (cases "e = length input")
      case True
      have "run_spec prog re False (int (Suc (length input))) input = Inr None"
        using run_spec_ltr [OF ltr, of prog False "Suc (length input)" input] by simp
      moreover have "FindNextMatch (run_spec prog) re (Some m) = Inr None"
        using \<open>e = p\<close> True by (simp add: FindNextMatch_def m len_def)
      moreover have "k < Suc (length input)" using kp by simp
      moreover have "Index m + Length m \<le> int (Suc (length input))"
        using facts by (simp add: len_def)
      moreover have "Index m < int (Suc (length input))"
        using facts kp by simp
      ultimately show ?thesis using facts by metis
    next
      case False
      have "FindNextMatch (run_spec prog) re (Some m) = run_spec prog re False (int (Suc e)) input"
        using \<open>e = p\<close> False ltr by (simp add: FindNextMatch_def m len_def add.commute)
      moreover have "k < Suc e" using kp pe by simp
      moreover have "Index m + Length m \<le> int (Suc e)" using facts by simp
      moreover have "Index m < int (Suc e)" using facts pe by simp
      ultimately show ?thesis using facts by metis
    qed
  next
    case False
    with pe have "p < e" by simp
    then have "FindNextMatch (run_spec prog) re (Some m) = run_spec prog re False (int e) input"
      by (simp add: FindNextMatch_def m)
    moreover have "k < e" using kp \<open>p < e\<close> by simp
    moreover have "Index m + Length m \<le> int e" using facts by simp
    moreover have "Index m < int e" using facts \<open>p < e\<close> by simp
    ultimately show ?thesis using facts by metis
  qed
qed

text \<open>
  For a left-to-right pattern the next match starts after the start of the
  previous one, so its span is a different one.
\<close>

lemma FindNextMatch_ltr_advances:
  assumes ltr: "\<not> RightToLeft re" and ok: "program_ok False prog"
    and found: "run_spec prog re quick (int k) input = Inr (Some m)"
    and nxt: "FindNextMatch (run_spec prog) re (Some m) = Inr (Some m')"
  shows "Index m < Index m'"
proof -
  from next_ltr_match [OF ltr ok found] obtain k' where
    "Index m < int k'" and
    "FindNextMatch (run_spec prog) re (Some m) = run_spec prog re False (int k') input"
    by blast
  with nxt have "Index m < int k'" and "run_spec prog re False (int k') input = Inr (Some m')"
    by simp_all
  with next_ltr_match [OF ltr ok, of False k' input m'] show ?thesis
    by auto
qed

lemma next_ltr:
  assumes ltr: "\<not> RightToLeft re" and ok: "program_ok False prog"
    and found: "run_spec prog re quick (int k) input = Inr (Some m)"
  shows "\<exists>k'. k < k' \<and>
    drop_error (FindNextMatch (run_spec prog) re (Some m)) =
    drop_error (run_spec prog re False (int k') input)"
  using next_ltr_match [OF assms] by metis

lemma successive_stable:
  assumes ltr: "\<not> RightToLeft re" and ok: "program_ok False prog"
  shows "Suc (length input) - k \<le> j \<Longrightarrow>
    successive (run_spec prog) re (j + i) (drop_error (run_spec prog re quick (int k) input)) =
    successive (run_spec prog) re j (drop_error (run_spec prog re quick (int k) input))"
proof (induction j arbitrary: k quick)
  case 0
  then have "[k ..< Suc (length input)] = []" by simp
  then have "run_spec prog re quick (int k) input = Inr None"
    using ltr by (simp add: run_spec_ltr)
  then show ?case by (simp add: drop_error_def successive_None)
next
  case (Suc j)
  show ?case
  proof (cases "drop_error (run_spec prog re quick (int k) input)")
    case None
    then show ?thesis by (simp add: successive_None)
  next
    case (Some m)
    then have found: "run_spec prog re quick (int k) input = Inr (Some m)"
      by (auto simp: drop_error_def split: sum.splits)
    from next_ltr [OF ltr ok found] obtain k' where k': "k < k'"
      and nxt: "drop_error (FindNextMatch (run_spec prog) re (Some m)) =
        drop_error (run_spec prog re False (int k') input)"
      by blast
    from k' Suc.prems have "Suc (length input) - k' \<le> j" by simp
    from Suc.IH [OF this, of False] show ?thesis
      by (simp add: Some nxt)
  qed
qed

lemma FindStringMatch_ltr:
  "\<not> RightToLeft re \<Longrightarrow>
   FindStringMatch (run_spec prog) re s = run_spec prog re False (int 0) (getRunes s)"
  by (simp add: FindStringMatch_def run_spec_def)

text \<open>
  What the two loops compute, for every engine: \<open>FindAllStringIndex\<close> and
  \<open>FindAllStringSubmatchIndex\<close> repeat find-next and stop at the first nil
  result; they return the spans of at most \<open>n\<close> matches when \<open>n \<ge> 0\<close> and of at most
  \<open>len(s) + 1\<close> matches when \<open>n < 0\<close>.  For a left-to-right pattern, run by the
  engine of the specification on a program that keeps the cursor inside the
  input, a larger bound finds no further match, so the bound cuts nothing off.
  For the pattern \<open>p([a-z]+)ch\<close> on \<open>peach punch pinch\<close> with \<open>n = -1\<close> the results
  are the lists of the example.
\<close>

lemma FindAll_successive:
  "FindAllStringIndex run re s n =
     map (\<lambda>m. span (Groups m ! 0))
       (successive run re (nat (if n < 0 then len s + 1 else n))
          (drop_error (FindStringMatch run re s)))
   \<and> FindAllStringSubmatchIndex run re s n =
     map (\<lambda>m. concat (map span (Groups m)))
       (successive run re (nat (if n < 0 then len s + 1 else n))
          (drop_error (FindStringMatch run re s)))
   \<and> (0 \<le> n \<longrightarrow> int (length (FindAllStringIndex run re s n)) \<le> n)
   \<and> (\<not> RightToLeft re \<and> program_ok False prog \<longrightarrow>
        successive (run_spec prog) re (nat (len s + 1) + i)
          (drop_error (FindStringMatch (run_spec prog) re s)) =
        successive (run_spec prog) re (nat (len s + 1))
          (drop_error (FindStringMatch (run_spec prog) re s)))
   \<and> FindAllStringIndex (run_spec prog_p_az_ch) re_ltr ''peach punch pinch'' (- 1) =
       [[0, 5], [6, 11], [12, 17]]
   \<and> FindAllStringSubmatchIndex (run_spec prog_p_az_ch) re_ltr ''peach punch pinch'' (- 1) =
       [[0, 5, 1, 3], [6, 11, 7, 9], [12, 17, 13, 15]]"
proof (intro conjI impI)
  show a: "FindAllStringIndex run re s n =
     map (\<lambda>m. span (Groups m ! 0))
       (successive run re (nat (if n < 0 then len s + 1 else n))
          (drop_error (FindStringMatch run re s)))"
    by (simp add: FindAllStringIndex_def FindAllStringIndex_loop_successive)
  show "FindAllStringSubmatchIndex run re s n =
     map (\<lambda>m. concat (map span (Groups m)))
       (successive run re (nat (if n < 0 then len s + 1 else n))
          (drop_error (FindStringMatch run re s)))"
    by (simp add: FindAllStringSubmatchIndex_def FindAllStringSubmatchIndex_loop_successive)
  show "int (length (FindAllStringIndex run re s n)) \<le> n" if "0 \<le> n"
  proof -
    have "length (FindAllStringIndex run re s n) \<le> nat n"
      unfolding a using that successive_length [of run re "nat n"] by simp
    with that show ?thesis by simp
  qed
next
  assume h: "\<not> RightToLeft re \<and> program_ok False prog"
  have "length (getRunes s) \<le> length s"
    using getRunes_length [of s] by (simp add: len_def)
  then have "Suc (length (getRunes s)) - 0 \<le> nat (len s + 1)"
    by (simp add: len_def)
  from successive_stable [OF conjunct1 [OF h] conjunct2 [OF h] this, of i False]
  show "successive (run_spec prog) re (nat (len s + 1) + i)
          (drop_error (FindStringMatch (run_spec prog) re s)) =
        successive (run_spec prog) re (nat (len s + 1))
          (drop_error (FindStringMatch (run_spec prog) re s))"
    using h by (simp add: FindStringMatch_ltr)
next
  show "FindAllStringIndex (run_spec prog_p_az_ch) re_ltr ''peach punch pinch'' (- 1) =
       [[0, 5], [6, 11], [12, 17]]"
    by code_simp
  show "FindAllStringSubmatchIndex (run_spec prog_p_az_ch) re_ltr ''peach punch pinch'' (- 1) =
       [[0, 5, 1, 3], [6, 11, 7, 9], [12, 17, 13, 15]]"
    by code_simp
qed

lemma FindAll_successive_example:
  "int (length (FindAllStringIndex (run_spec prog_p_az_ch) re_ltr ''peach punch pinch'' 2)) \<le> 2
   \<and> successive (run_spec prog_p_az_ch) re_ltr (nat (len ''peach punch pinch'' + 1) + 3)
       (drop_error (FindStringMatch (run_spec prog_p_az_ch) re_ltr ''peach punch pinch'')) =
     successive (run_spec prog_p_az_ch) re_ltr (nat (len ''peach punch pinch'' + 1))
       (drop_error (FindStringMatch (run_spec prog_p_az_ch) re_ltr ''peach punch pinch''))"
proof -
  note t = FindAll_successive
    [of "run_spec prog_p_az_ch" re_ltr "''peach punch pinch''" 2 prog_p_az_ch 3]
  have "(0::int) \<le> 2" by simp
  with t have a:
    "int (length (FindAllStringIndex (run_spec prog_p_az_ch) re_ltr ''peach punch pinch'' 2)) \<le> 2"
    by blast
  from t re_ltr_not_RightToLeft prog_p_az_ch_ok have b:
    "successive (run_spec prog_p_az_ch) re_ltr (nat (len ''peach punch pinch'' + 1) + 3)
       (drop_error (FindStringMatch (run_spec prog_p_az_ch) re_ltr ''peach punch pinch'')) =
     successive (run_spec prog_p_az_ch) re_ltr (nat (len ''peach punch pinch'' + 1))
       (drop_error (FindStringMatch (run_spec prog_p_az_ch) re_ltr ''peach punch pinch''))"
    by blast
  from a b show ?thesis by (rule conjI)
qed

text \<open>
  C5: \<open>FindAllStringIndex\<close> is meant to return all successive matches when
  \<open>n < 0\<close>.  For a right-to-left pattern whose first match is a zero-width match
  at position 0, \<open>FindNextMatch\<close> returns that match again and again, so the
  matches never come to an end: on the input \<open>a\<close> the span \<open>[0, 0]\<close> is returned
  twice with \<open>n = -1\<close>, as often as the bound \<open>len(s) + 1\<close> allows, and three times
  with \<open>n = 3\<close>.  The result for \<open>n < 0\<close> repeats one match and does not hold all
  successive matches.
\<close>

theorem FindAllStringIndex_rtl_repeats:
  "FindAllStringIndex (run_spec prog_beginning) re_rtl ''a'' (- 1) = [[0, 0], [0, 0]]
   \<and> FindAllStringIndex (run_spec prog_beginning) re_rtl ''a'' 3 = [[0, 0], [0, 0], [0, 0]]"
  by code_simp

subsection \<open>Replacing with a callback\<close>

text \<open>
  Two facts about one pass through the loop of \<open>replaceAll\<close>.  The callback is not
  applied to a zero-width match that starts where the previous match ended,
  unless that is position 0.  The scan position moves on by at least one byte
  when the match does not end before it.
\<close>

lemma replaceAll_body_guard:
  assumes "Length m = 0" and "Index m = lastMatchEnd st" and "Index m \<noteq> 0"
    and "replaceAll_body src rp st m = Inr st'"
  shows "buf st' = buf st"
  using assms
  by (auto simp: replaceAll_body_def Let_def slice_def split: sum.splits if_splits)

lemma replaceAll_body_advance:
  assumes "searchPos st \<le> Index m + Length m"
    and "replaceAll_body src rp st m = Inr st'"
  shows "searchPos st + 1 \<le> searchPos st'"
proof -
  from assms(2) obtain rest where
    rest: "slice src (searchPos st) (len src) = Inr rest" and
    sp: "searchPos st' =
      (if searchPos st + int (snd (DecodeRuneInString rest)) > Index m + Length m
       then searchPos st + int (snd (DecodeRuneInString rest))
       else if searchPos st + 1 > Index m + Length m then searchPos st + 1
       else Index m + Length m)"
    by (auto simp: replaceAll_body_def Let_def split: sum.splits if_splits)
  show ?thesis
    using assms(1) unfolding sp by auto
qed

text \<open>
  C7: in \<open>replaceAll\<close> the scan position is meant to advance by at least one scalar
  between two replacements.  The matches count runes and \<open>replaceAll\<close> uses their
  positions as byte offsets of the string.  On the two-byte string of the single
  scalar U+00E9, with the empty pattern, the first match is at rune 0 and the next
  at rune 1; the second pass copies the first byte of the scalar, applies the
  callback at byte offset 1, in the middle of the scalar, and leaves \<open>searchPos\<close>
  at 2.  The result has a dash between the two bytes of the scalar.
\<close>

theorem ReplaceAllFunc_splits_scalar:
  "ReplaceAllFunc (run_spec prog_empty) re_ltr [CHR 0xC3, CHR 0xA9] dash =
     Some (Inr [CHR 0x2D, CHR 0xC3, CHR 0x2D, CHR 0xA9])
   \<and> FindStringMatch (run_spec prog_empty) re_ltr [CHR 0xC3, CHR 0xA9] =
       Inr (Some \<lparr>Index = 0, Length = 0, mtext = [233], textpos = 0, otherGroups = []\<rparr>)
   \<and> FindNextMatch (run_spec prog_empty) re_ltr
         (Some \<lparr>Index = 0, Length = 0, mtext = [233], textpos = 0, otherGroups = []\<rparr>) =
       Inr (Some \<lparr>Index = 1, Length = 0, mtext = [233], textpos = 1, otherGroups = []\<rparr>)
   \<and> replaceAll_body [CHR 0xC3, CHR 0xA9] dash_repl
         \<lparr>lastMatchEnd = 0, searchPos = 2, buf = ''-''\<rparr>
         \<lparr>Index = 1, Length = 0, mtext = [233], textpos = 1, otherGroups = []\<rparr> =
       Inr \<lparr>lastMatchEnd = 1, searchPos = 2, buf = [CHR 0x2D, CHR 0xC3, CHR 0x2D]\<rparr>"
  by code_simp

subsection \<open>Replacing every match by itself\<close>

lemma Groups_0: "Index (Groups m ! 0) = Index m \<and> Length (Groups m ! 0) = Length m"
  by (simp add: Groups_def Capture.defs)

lemma expand_whole: "expand [GroupNumber 0] m = span_text (mtext m) (Index m) (Index m + Length m)"
  by (simp add: expand_def Groups_0 Groups_nonempty)

lemma getRunes_dollar0: "getRunes ''$0'' = [36, 48]"
  by (simp add: getRunes_def DecodeRuneInString_def)

lemma NewReplacerData_dollar0:
  "slot_of cps csize 0 = Some 0 \<Longrightarrow> NewReplacerData ''$0'' cps csize names opts = Inr [GroupNumber 0]"
  by (simp add: NewReplacerData_def getRunes_dollar0 is_digit_rune_def)

lemma span_text_join:
  assumes "0 \<le> a" and "a \<le> b" and "b \<le> c"
  shows "span_text xs a b @ span_text xs b c = span_text xs a c"
proof -
  have n: "nat (b - a) + nat a = nat b"
    using assms by linarith
  have b: "drop (nat b) xs = drop (nat (b - a)) (drop (nat a) xs)"
    unfolding drop_drop n ..
  have c: "nat (c - a) = nat (b - a) + nat (c - b)"
    using assms by simp
  show ?thesis
    unfolding span_text_def b c by (simp add: take_add)
qed

lemma span_text_all: "span_text xs 0 (len xs) = xs"
  by (simp add: span_text_def len_def)

lemma scan_error: "scan prog input ps = Inl err \<Longrightarrow> err = errors_New ''match timeout''"
proof (induction ps)
  case Nil
  then show ?case by simp
next
  case (Cons p ps)
  then show ?case by (cases "prog input p") auto
qed

lemma run_spec_error:
  "run_spec prog re quick startAt input = Inl err \<Longrightarrow> err = errors_New ''match timeout''"
proof -
  assume a: "run_spec prog re quick startAt input = Inl err"
  have "\<exists>ps. run_spec prog re quick startAt input = scan prog input ps"
    unfolding run_spec_def Let_def by (cases "RightToLeft re") (simp_all del: upt_Suc, blast+)
  with a obtain ps where "scan prog input ps = Inl err" by auto
  then show ?thesis by (rule scan_error)
qed

lemma replace_loop_whole:
  assumes ltr: "\<not> RightToLeft re" and ok: "program_ok False prog"
  shows "Suc (length input) - k \<le> j \<Longrightarrow> count < 0 \<Longrightarrow> 0 \<le> prevat \<Longrightarrow> prevat \<le> int k \<Longrightarrow>
    run_spec prog re quick (int k) input = Inr mo \<Longrightarrow>
    replace_loop (run_spec prog) re [GroupNumber 0] input count prevat out mo
      = Some (Inr (out @ span_text input prevat (len input)))
    \<or> replace_loop (run_spec prog) re [GroupNumber 0] input count prevat out mo
      = Some (Inl (errors_New ''match timeout''))"
proof (induction j arbitrary: k count prevat out mo quick)
  case 0
  then have "[k ..< Suc (length input)] = []" by simp
  then have "run_spec prog re quick (int k) input = Inr None"
    using ltr by (simp add: run_spec_ltr)
  with "0.prems" have "mo = None" by simp
  then show ?case
    using ltr by (subst replace_loop.simps) simp
next
  case (Suc j)
  show ?case
  proof (cases mo)
    case None
    then show ?thesis
      using ltr by (subst replace_loop.simps) simp
  next
    case (Some m)
    with Suc.prems have found: "run_spec prog re quick (int k) input = Inr (Some m)" by simp
    from next_ltr_match [OF ltr ok found] obtain k' where k': "k < k'"
      and lo: "int k \<le> Index m" and ln: "0 \<le> Length m"
      and hi: "Index m + Length m \<le> len input" and nk: "Index m + Length m \<le> int k'"
      and tx: "mtext m = input"
      and nxt: "FindNextMatch (run_spec prog) re (Some m) = run_spec prog re False (int k') input"
      by blast
    let ?out' = "out @ span_text input prevat (Index m) @ expand [GroupNumber 0] m"
    have unf: "replace_loop (run_spec prog) re [GroupNumber 0] input count prevat out (Some m) =
      (case run_spec prog re False (int k') input of
         Inl err \<Rightarrow> Some (Inl err)
       | Inr mo' \<Rightarrow>
           replace_loop (run_spec prog) re [GroupNumber 0] input (count - 1)
             (Index m + Length m) ?out' mo')"
      using ltr Suc.prems(2) by (subst replace_loop.simps) (simp add: nxt)
    show ?thesis
    proof (cases "run_spec prog re False (int k') input")
      case (Inl err)
      then have "err = errors_New ''match timeout''" by (rule run_spec_error)
      with Inl unf Some show ?thesis by simp
    next
      case (Inr mo')
      have j: "Suc (length input) - k' \<le> j" using k' Suc.prems(1) by simp
      have c: "count - 1 < 0" using Suc.prems(2) by simp
      have p0: "0 \<le> Index m + Length m" using lo ln by simp
      have join: "?out' @ span_text input (Index m + Length m) (len input) =
        out @ span_text input prevat (len input)"
      proof -
        have "span_text input prevat (Index m) @ span_text input (Index m) (Index m + Length m)
          = span_text input prevat (Index m + Length m)"
          using Suc.prems(3,4) lo ln by (intro span_text_join) simp_all
        moreover have "span_text input prevat (Index m + Length m)
          @ span_text input (Index m + Length m) (len input) = span_text input prevat (len input)"
          using Suc.prems(3,4) lo ln hi by (intro span_text_join) simp_all
        ultimately show ?thesis
          by (simp add: expand_whole tx)
      qed
      from Suc.IH [OF j c p0 nk Inr, of ?out'] show ?thesis
        unfolding join using Inr unf Some by simp
    qed
  qed
qed

text \<open>
  C6 (as amended): for a left-to-right pattern, run by the engine of the
  specification on a program that keeps the cursor inside the input, and for an
  input \<open>S\<close> that is well-formed UTF-8, that is, the encoding of its own scalars,
  replacing every match by the template \<open>$0\<close> returns \<open>S\<close>: the call
  \<open>Replace(S, "$0", -1, -1)\<close> ends, and its result is \<open>S\<close> unless the engine timed
  out.  Group 0 is the whole match.
\<close>

theorem Replace_whole_match:
  assumes "\<not> RightToLeft re" and "program_ok False prog"
    and "slot_of (caps re) (capsize re) 0 = Some 0"
    and "string_of_runes (getRunes S) = S"
  shows "Replace (run_spec prog) re S ''$0'' (- 1) (- 1) = Some (Inr S)
    \<or> Replace (run_spec prog) re S ''$0'' (- 1) (- 1) = Some (Inl (errors_New ''match timeout''))"
proof -
  have data: "NewReplacerData ''$0'' (caps re) (capsize re) (capnames re) (options re)
    = Inr [GroupNumber 0]"
    using assms(3) by (rule NewReplacerData_dollar0)
  have first: "FindStringMatchStartingAt (run_spec prog) re S (- 1) =
    run_spec prog re False (int 0) (getRunes S)"
    using assms(1) by (simp add: FindStringMatchStartingAt_def getRunesAndStart_def len_def)
  show ?thesis
  proof (cases "run_spec prog re False (int 0) (getRunes S)")
    case (Inl err)
    then have "err = errors_New ''match timeout''" by (rule run_spec_error)
    with Inl show ?thesis
      using first by (simp add: Replace_def data replace_def)
  next
    case (Inr mo)
    show ?thesis
    proof (cases mo)
      case None
      with Inr show ?thesis
        using first by (simp add: Replace_def data replace_def)
    next
      case (Some m)
      from next_ltr_match [OF assms(1,2) Inr [unfolded Some]] have tx: "mtext m = getRunes S"
        by blast
      have "Suc (length (getRunes S)) - 0 \<le> Suc (length (getRunes S))" by simp
      from replace_loop_whole [OF assms(1,2) this, of "- 1" 0 False mo "[]"] Inr
      have "replace_loop (run_spec prog) re [GroupNumber 0] (getRunes S) (- 1) 0 [] mo
          = Some (Inr (getRunes S))
        \<or> replace_loop (run_spec prog) re [GroupNumber 0] (getRunes S) (- 1) 0 [] mo
          = Some (Inl (errors_New ''match timeout''))"
        by (simp add: span_text_all)
      then show ?thesis
        using first Inr Some assms(1,4) tx
        by (auto simp: Replace_def data replace_def)
    qed
  qed
qed

lemma string_of_runes_example: "string_of_runes (getRunes ''a peach'') = ''a peach''"
  by code_simp

lemma slot_of_example: "slot_of (caps re_ltr) (capsize re_ltr) 0 = Some 0"
  by (simp add: slot_of_def re_ltr_def)

theorem Replace_whole_match_witness:
  "\<not> RightToLeft re_ltr \<and> program_ok False prog_p_az_ch
   \<and> slot_of (caps re_ltr) (capsize re_ltr) 0 = Some 0
   \<and> string_of_runes (getRunes ''a peach'') = ''a peach''
   \<and> Replace (run_spec prog_p_az_ch) re_ltr ''a peach'' ''$0'' (- 1) (- 1) = Some (Inr ''a peach'')"
proof -
  have "Replace (run_spec prog_p_az_ch) re_ltr ''a peach'' ''$0'' (- 1) (- 1)
      \<noteq> Some (Inl (errors_New ''match timeout''))"
    by code_simp
  with Replace_whole_match [OF re_ltr_not_RightToLeft prog_p_az_ch_ok slot_of_example
      string_of_runes_example]
  have "Replace (run_spec prog_p_az_ch) re_ltr ''a peach'' ''$0'' (- 1) (- 1) = Some (Inr ''a peach'')"
    by blast
  with re_ltr_not_RightToLeft prog_p_az_ch_ok slot_of_example string_of_runes_example
  show ?thesis by blast
qed

text \<open>
  The claim as stated fails for an input that is not well-formed UTF-8: the
  input is decoded into scalars, the byte 0xFF becomes U+FFFD, and the result is
  the encoding of that scalar.
\<close>

theorem Replace_invalid_utf8_counterexample:
  "Replace (run_spec prog_empty) re_ltr [CHR 0xFF] ''$0'' (- 1) (- 1) =
     Some (Inr [CHR 0xEF, CHR 0xBF, CHR 0xBD])"
  by code_simp

end
